theory Spec2Isabelle
  imports Main "HOL-Library.Word" "HOL-Library.Sublist" "HOL-Library.AList"
begin

section \<open>JavaScript values\<close>

text \<open>
  A JavaScript string is a sequence of UTF-16 code units. Text that the user types or
  that the services return is kept in that form, so that \<open>trim\<close> sees every character
  ECMAScript counts as white space. Property names are the ASCII identifiers written in
  \<^verbatim>\<open>App.tsx\<close> and are kept as HOL strings.
\<close>

type_synonym jsstring = "16 word list"

definition js :: "string \<Rightarrow> jsstring" where
  "js s = map of_char s"

datatype jsval =
    JUndefined
  | JNull
  | JBool bool
  | JNum int
  | JStr jsstring
  | JOther nat

text \<open>
  An object is the list of its own properties, in insertion order. Reading a property
  that is absent gives \<open>undefined\<close>; writing one replaces the value in place or
  appends the property, as assignment and object spread do.
\<close>

type_synonym obj = "(string \<times> jsval) list"

definition readProp :: "obj \<Rightarrow> string \<Rightarrow> jsval" where
  "readProp ob k = (case map_of ob k of None \<Rightarrow> JUndefined | Some v \<Rightarrow> v)"

definition setProp :: "obj \<Rightarrow> string \<Rightarrow> jsval \<Rightarrow> obj" where
  "setProp ob k v = AList.update k v ob"

subsection \<open>String.prototype.trim\<close>

text \<open>
  ECMAScript \<open>WhiteSpace\<close> (TAB, VT, FF, ZWNBSP and the space separators) together
  with \<open>LineTerminator\<close> (LF, CR, LS, PS).
\<close>

definition isWhiteSpace :: "16 word \<Rightarrow> bool" where
  "isWhiteSpace c =
     (c = 0x0009 \<or> c = 0x000A \<or> c = 0x000B \<or> c = 0x000C \<or> c = 0x000D \<or>
      c = 0x0020 \<or> c = 0x00A0 \<or> c = 0x1680 \<or>
      (0x2000 \<le> c \<and> c \<le> 0x200A) \<or>
      c = 0x2028 \<or> c = 0x2029 \<or> c = 0x202F \<or> c = 0x205F \<or>
      c = 0x3000 \<or> c = 0xFEFF)"

definition trim :: "jsstring \<Rightarrow> jsstring" where
  "trim s = rev (dropWhile isWhiteSpace (rev (dropWhile isWhiteSpace s)))"

subsection \<open>Number to string\<close>

text \<open>
  \<open>Date.now()\<close> is an integral number of milliseconds whose magnitude is below
  \<open>10^21\<close>, where the template literal prints it in plain decimal notation.
\<close>

definition digitChar :: "nat \<Rightarrow> 16 word" where
  "digitChar d = of_nat (48 + d)"

fun digits :: "nat \<Rightarrow> jsstring" where
  "digits n = (if n < 10 then [digitChar n] else digits (n div 10) @ [digitChar (n mod 10)])"

declare digits.simps [simp del]

definition numToString :: "int \<Rightarrow> jsstring" where
  "numToString i = (if i < 0 then js ''-'' @ digits (nat (- i)) else digits (nat i))"

text \<open>The number a string of decimal digits denotes.\<close>

definition decimalValue :: "jsstring \<Rightarrow> nat" where
  "decimalValue s = foldl (\<lambda>a c. 10 * a + (unat c - 48)) 0 s"

section \<open>Helpers of App.tsx\<close>

text \<open>
  \<^verbatim>\<open>readStringProp(obj, key)\<close>: the property's value when it is a string,
  \<open>undefined\<close> (here \<open>None\<close>) otherwise. The argument is an object; the one call
  site that can pass \<open>null\<close> is in \<open>createNote\<close>, where the \<open>TypeError\<close> of reading
  a property of \<open>null\<close> is written out.
\<close>

definition readStringProp :: "obj \<Rightarrow> string \<Rightarrow> jsstring option" where
  "readStringProp ob k = (case readProp ob k of JStr v \<Rightarrow> Some v | _ \<Rightarrow> None)"

text \<open>\<^verbatim>\<open>a ?? b\<close> takes \<open>b\<close> only when \<open>a\<close> is \<open>undefined\<close> or \<open>null\<close>.\<close>

definition getImageKey :: "obj \<Rightarrow> jsstring option" where
  "getImageKey note =
     (case readStringProp note ''imageKey'' of
        Some v \<Rightarrow> Some v
      | None \<Rightarrow> readStringProp note ''image'')"

text \<open>\<^verbatim>\<open>if (key)\<close> on a \<open>string | undefined\<close>: a defined, non-empty string.\<close>

definition truthy :: "jsstring option \<Rightarrow> bool" where
  "truthy k = (case k of None \<Rightarrow> False | Some v \<Rightarrow> v \<noteq> [])"

record base =
  btitle :: jsstring
  bcontent :: "jsstring option"

text \<open>
  \<^verbatim>\<open>{ ...base }\<close> copies both properties of \<open>base\<close>; \<open>content\<close> is a property
  even when its value is \<open>undefined\<close>.
\<close>

definition buildCreateInput :: "base \<Rightarrow> jsstring option \<Rightarrow> obj" where
  "buildCreateInput b imageKey =
     (let payload = [(''title'', JStr (btitle b)),
                     (''content'', (case bcontent b of None \<Rightarrow> JUndefined | Some c \<Rightarrow> JStr c))]
      in if truthy imageKey
         then setProp (setProp payload ''imageKey'' (JStr (the imageKey))) ''image'' (JStr (the imageKey))
         else payload)"

section \<open>State, services and observable events\<close>

record jsfile =
  fname :: jsstring
  ftype :: jsstring
  fbytes :: "8 word list"

record form =
  title :: jsstring
  content :: "jsstring option"
  imageFile :: "jsfile option"

record app =
  "notes" :: "obj list"
  loading :: bool
  form :: form

text \<open>
  A call of the SDK either rejects, with an \<open>error\<close>, or resolves. \<open>TypeError\<close> is
  the error the JavaScript runtime raises itself.
\<close>

datatype error = TypeError | Rejected string

text \<open>
  The answers of the record store, the blob store and the clock. An operation calls
  list, create, delete and upload at most once, so each answer is a function of the
  call's arguments. \<open>getUrl\<close> is called once per record; its answer depends on the
  position of the record the call is made for and on the path.
\<close>

record env =
  list_resp :: "error + (obj list option \<times> string list option)"
  getUrl_resp :: "nat \<Rightarrow> jsstring \<Rightarrow> error + jsstring"
  upload_resp :: "jsstring \<Rightarrow> jsfile \<Rightarrow> error + unit"
  create_resp :: "obj \<Rightarrow> error + (obj option \<times> string list option)"
  delete_resp :: "jsstring \<Rightarrow> error + (obj option \<times> string list option)"
  now :: int

text \<open>
  What an operation does to the outside, in the order it does it: the calls it issues,
  the lines it writes to the console, the DOM methods it calls, and the toggles of the
  loading indicator. Every call but the \<open>getUrl\<close> calls of \<open>fetchNotes\<close> is awaited
  where it is issued, so the operation goes on only once the call has settled; the
  \<open>getUrl\<close> calls of \<open>fetchNotes\<close> are issued one after the other and awaited together.
\<close>

datatype event =
    PreventDefault
  | FormReset
  | SetLoading bool
  | ListCall
  | GetUrlCall jsstring
  | UploadCall jsstring jsfile
  | CreateCall obj
  | DeleteCall jsstring
  | ConsoleError string "string list"

record result =
  outcome :: "error option"
  after :: app
  events :: "event list"

text \<open>\<^verbatim>\<open>if (errors?.length) console.error(label, errors)\<close>\<close>

definition logErrors :: "string \<Rightarrow> string list option \<Rightarrow> event list" where
  "logErrors label errors =
     (case errors of
        None \<Rightarrow> []
      | Some es \<Rightarrow> if es = [] then [] else [ConsoleError label es])"

section \<open>fetchNotes\<close>

text \<open>
  The callback given to \<open>map\<close>: the note itself when it has no image key or when
  \<open>getUrl\<close> rejects, the note with \<open>imageUrl\<close> otherwise. The URL object of the SDK's
  answer is never absent, so \<^verbatim>\<open>url?.toString()\<close> is its text.
\<close>

definition enrichNote :: "env \<Rightarrow> nat \<Rightarrow> obj \<Rightarrow> obj" where
  "enrichNote env i n =
     (let key = getImageKey n
      in if truthy key
         then (case getUrl_resp env i (the key) of
                 Inr url \<Rightarrow> setProp n ''imageUrl'' (JStr url)
               | Inl e \<Rightarrow> n)
         else n)"

text \<open>The \<open>getUrl\<close> calls that the callbacks issue, in the order of the records.\<close>

definition urlCalls :: "obj list \<Rightarrow> event list" where
  "urlCalls xs =
     concat (map (\<lambda>n. if truthy (getImageKey n) then [GetUrlCall (the (getImageKey n))] else []) xs)"

text \<open>\<^verbatim>\<open>data ?? []\<close>\<close>

definition recordsOf :: "obj list option \<Rightarrow> obj list" where
  "recordsOf data = (case data of None \<Rightarrow> [] | Some d \<Rightarrow> d)"

definition fetchNotes :: "env \<Rightarrow> app \<Rightarrow> result" where
  "fetchNotes env s =
     (let s1 = s\<lparr>loading := True\<rparr>
      in case list_resp env of
           Inl e \<Rightarrow>
             \<lparr>outcome = Some e, after = s1\<lparr>loading := False\<rparr>,
              events = [SetLoading True, ListCall, SetLoading False]\<rparr>
         | Inr (data, errors) \<Rightarrow>
             (let xs = recordsOf data;
                  enriched = map (\<lambda>(i, n). enrichNote env i n) (enumerate 0 xs)
              in \<lparr>outcome = None, after = s1\<lparr>notes := enriched, loading := False\<rparr>,
                  events = [SetLoading True, ListCall] @ logErrors ''List errors:'' errors
                           @ urlCalls xs @ [SetLoading False]\<rparr>))"

section \<open>createNote\<close>

definition imagePathOf :: "env \<Rightarrow> jsfile \<Rightarrow> jsstring" where
  "imagePathOf env f = js ''public/notes/'' @ numToString (now env) @ js ''_'' @ fname f"

definition emptyForm :: form where
  "emptyForm = \<lparr>title = [], content = Some [], imageFile = None\<rparr>"

definition createNote :: "env \<Rightarrow> app \<Rightarrow> result" where
  "createNote env s =
     (let t = trim (title (form s))
      in if t = [] then \<lparr>outcome = None, after = s, events = [PreventDefault]\<rparr>
         else
           let b = \<lparr>btitle = t,
                    bcontent = (case content (form s) of
                                  None \<Rightarrow> None
                                | Some c \<Rightarrow> if trim c = [] then None else Some (trim c))\<rparr>;
               imagePath = (case imageFile (form s) of
                              None \<Rightarrow> None
                            | Some f \<Rightarrow> Some (imagePathOf env f));
               upload = (case imageFile (form s) of
                           None \<Rightarrow> Inr ()
                         | Some f \<Rightarrow> upload_resp env (imagePathOf env f) f);
               ev1 = PreventDefault #
                     (case imageFile (form s) of
                        None \<Rightarrow> []
                      | Some f \<Rightarrow> [UploadCall (imagePathOf env f) f])
           in case upload of
                Inl e \<Rightarrow> \<lparr>outcome = Some e, after = s, events = ev1\<rparr>
              | Inr u \<Rightarrow>
                  (let input = buildCreateInput b imagePath;
                       ev2 = ev1 @ [CreateCall input]
                   in case create_resp env input of
                        Inl e \<Rightarrow> \<lparr>outcome = Some e, after = s, events = ev2\<rparr>
                      | Inr (created, errors) \<Rightarrow>
                          (let ev3 = ev2 @ logErrors ''Create errors:'' errors
                           in case created of
                                None \<Rightarrow> \<lparr>outcome = Some TypeError, after = s, events = ev3\<rparr>
                              | Some c \<Rightarrow>
                                  (let key = getImageKey c;
                                       newItem = (if truthy key
                                                  then (case getUrl_resp env 0 (the key) of
                                                          Inr url \<Rightarrow> setProp c ''imageUrl'' (JStr url)
                                                        | Inl e \<Rightarrow> c)
                                                  else c);
                                       ev4 = ev3 @ (if truthy key then [GetUrlCall (the key)] else [])
                                   in \<lparr>outcome = None,
                                       after = s\<lparr>notes := newItem # notes s, form := emptyForm\<rparr>,
                                       events = ev4 @ [FormReset]\<rparr>))))"

text \<open>
  \<open>createNote\<close> is suspended at each of its awaits, and other operations can settle
  meanwhile. The updater it hands to \<open>setNotes\<close>, \<^verbatim>\<open>(prev) => [newItem, ...prev]\<close>,
  takes the list as it is when the update is applied. \<open>createNoteOn env s cur\<close> is
  \<open>createNote\<close> called in the state \<open>s\<close>, whose form it reads, with its updates applied
  to the state \<open>cur\<close>; \<open>createNote env s\<close> is the run with nothing in between, where
  \<open>cur\<close> is \<open>s\<close>.
\<close>

definition createNoteOn :: "env \<Rightarrow> app \<Rightarrow> app \<Rightarrow> result" where
  "createNoteOn env s cur =
     (let t = trim (title (form s))
      in if t = [] then \<lparr>outcome = None, after = cur, events = [PreventDefault]\<rparr>
         else
           let b = \<lparr>btitle = t,
                    bcontent = (case content (form s) of
                                  None \<Rightarrow> None
                                | Some c \<Rightarrow> if trim c = [] then None else Some (trim c))\<rparr>;
               imagePath = (case imageFile (form s) of
                              None \<Rightarrow> None
                            | Some f \<Rightarrow> Some (imagePathOf env f));
               upload = (case imageFile (form s) of
                           None \<Rightarrow> Inr ()
                         | Some f \<Rightarrow> upload_resp env (imagePathOf env f) f);
               ev1 = PreventDefault #
                     (case imageFile (form s) of
                        None \<Rightarrow> []
                      | Some f \<Rightarrow> [UploadCall (imagePathOf env f) f])
           in case upload of
                Inl e \<Rightarrow> \<lparr>outcome = Some e, after = cur, events = ev1\<rparr>
              | Inr u \<Rightarrow>
                  (let input = buildCreateInput b imagePath;
                       ev2 = ev1 @ [CreateCall input]
                   in case create_resp env input of
                        Inl e \<Rightarrow> \<lparr>outcome = Some e, after = cur, events = ev2\<rparr>
                      | Inr (created, errors) \<Rightarrow>
                          (let ev3 = ev2 @ logErrors ''Create errors:'' errors
                           in case created of
                                None \<Rightarrow> \<lparr>outcome = Some TypeError, after = cur, events = ev3\<rparr>
                              | Some c \<Rightarrow>
                                  (let key = getImageKey c;
                                       newItem = (if truthy key
                                                  then (case getUrl_resp env 0 (the key) of
                                                          Inr url \<Rightarrow> setProp c ''imageUrl'' (JStr url)
                                                        | Inl e \<Rightarrow> c)
                                                  else c);
                                       ev4 = ev3 @ (if truthy key then [GetUrlCall (the key)] else [])
                                   in \<lparr>outcome = None,
                                       after = cur\<lparr>notes := newItem # notes cur, form := emptyForm\<rparr>,
                                       events = ev4 @ [FormReset]\<rparr>))))"

section \<open>deleteNote\<close>

definition deleteNote :: "env \<Rightarrow> jsstring \<Rightarrow> app \<Rightarrow> result" where
  "deleteNote env i s =
     (case delete_resp env i of
        Inl e \<Rightarrow> \<lparr>outcome = Some e, after = s, events = [DeleteCall i]\<rparr>
      | Inr r \<Rightarrow>
          \<lparr>outcome = None,
           after = s\<lparr>notes := filter (\<lambda>n. readProp n ''id'' \<noteq> JStr i) (notes s)\<rparr>,
           events = [DeleteCall i]\<rparr>)"

section \<open>Storage access (amplify/storage/resource.ts)\<close>

datatype action = Read | Write | Delete

record storageConfig =
  name :: string
  access :: "(string \<times> (string \<times> action list) list) list"

definition storage :: storageConfig where
  "storage =
     \<lparr>name = ''amplifyNotesDrive'',
      access = [(''media/{entity_id}/*'', [(''identity'', [Read, Write, Delete])])]\<rparr>"

text \<open>
  How the platform reads an access path: the token \<open>{entity_id}\<close> stands for the
  identifier of the calling identity, and a path that ends in \<open>*\<close> covers every object
  whose path starts with what precedes the star.
\<close>

fun substEntity :: "jsstring \<Rightarrow> string \<Rightarrow> jsstring" where
  "substEntity uid [] = []"
| "substEntity uid (c # cs) =
     (if take 11 (c # cs) = ''{entity_id}''
      then uid @ substEntity uid (drop 10 cs)
      else of_char c # substEntity uid cs)"

definition pathMatches :: "jsstring \<Rightarrow> string \<Rightarrow> jsstring \<Rightarrow> bool" where
  "pathMatches uid pat path =
     (let p = substEntity uid pat
      in if p \<noteq> [] \<and> last p = 0x2A then prefix (butlast p) path else p = path)"

definition granted :: "storageConfig \<Rightarrow> jsstring \<Rightarrow> action \<Rightarrow> jsstring \<Rightarrow> bool" where
  "granted cfg uid act path =
     list_ex (\<lambda>(pat, rules). pathMatches uid pat path \<and> list_ex (\<lambda>(ent, acts). act \<in> set acts) rules)
       (access cfg)"

section \<open>Notions the properties are stated with\<close>

text \<open>The \<open>id\<close> of a note in the in-memory list, as \<^verbatim>\<open>n.id\<close> reads it.\<close>

definition noteId :: "obj \<Rightarrow> jsval" where
  "noteId n = readProp n ''id''"

definition uniqueIds :: "obj list \<Rightarrow> bool" where
  "uniqueIds ns = distinct (map noteId ns)"

text \<open>A display note has an image URL when its \<open>imageUrl\<close> property is defined.\<close>

definition hasImageUrl :: "obj \<Rightarrow> bool" where
  "hasImageUrl n = (readProp n ''imageUrl'' \<noteq> JUndefined)"

text \<open>
  The record at position \<open>i\<close> carries a non-empty image key and the blob store resolves
  the URL asked for it.
\<close>

definition resolved :: "env \<Rightarrow> nat \<Rightarrow> obj \<Rightarrow> bool" where
  "resolved env i n =
     (truthy (getImageKey n) \<and> \<not> isl (getUrl_resp env i (the (getImageKey n))))"

text \<open>No call of the record store's create operation and none of the upload.\<close>

fun isCreateCall :: "event \<Rightarrow> bool" where
  "isCreateCall (CreateCall input) = True"
| "isCreateCall _ = False"

fun isUploadCall :: "event \<Rightarrow> bool" where
  "isUploadCall (UploadCall p f) = True"
| "isUploadCall _ = False"

section \<open>Sample inputs\<close>

definition noteA :: obj where
  "noteA = [(''id'', JStr (js ''a'')), (''title'', JStr (js ''A'')), (''imageKey'', JStr (js ''k1''))]"

definition noteB :: obj where
  "noteB = [(''id'', JStr (js ''b'')), (''title'', JStr (js ''B'')), (''image'', JStr (js ''k2''))]"

definition noteC :: obj where
  "noteC = [(''id'', JStr (js ''c'')), (''title'', JStr (js ''C''))]"

definition sampleFile :: jsfile where
  "sampleFile = \<lparr>fname = js ''cat.png'', ftype = js ''image/png'', fbytes = [1, 2, 3]\<rparr>"

text \<open>
  A store that lists three notes and creates what it is asked to, under the id \<open>n\<close>; a
  blob store that takes every upload and resolves every URL but the one asked for the
  record at position 1.
\<close>

definition sampleEnv :: env where
  "sampleEnv =
     \<lparr>list_resp = Inr (Some [noteA, noteB, noteC], None),
      getUrl_resp = (\<lambda>i p. if i = 1 then Inl (Rejected ''NotFound'') else Inr (js ''https://u/'' @ p)),
      upload_resp = (\<lambda>p f. Inr ()),
      create_resp = (\<lambda>input. Inr (Some ((''id'', JStr (js ''n'')) # input), None)),
      delete_resp = (\<lambda>i. Inr (None, None)),
      now = 1730\<rparr>"

text \<open>The same services, with a record store and a blob store that reject every call.\<close>

definition failingEnv :: env where
  "failingEnv =
     sampleEnv\<lparr>list_resp := Inl (Rejected ''Network''),
               upload_resp := (\<lambda>p f. Inl (Rejected ''AccessDenied'')),
               delete_resp := (\<lambda>i. Inl (Rejected ''Network''))\<rparr>"

text \<open>A record store that answers create with errors and no record.\<close>

definition refusingEnv :: env where
  "refusingEnv = sampleEnv\<lparr>create_resp := (\<lambda>input. Inr (None, Some [''Unauthorized'']))\<rparr>"

definition sampleApp :: app where
  "sampleApp =
     \<lparr>notes = [noteC, noteA],
      loading = False,
      form = \<lparr>title = js '' My Title '', content = Some (js '' body ''), imageFile = None\<rparr>\<rparr>"

definition blankApp :: app where
  "blankApp = sampleApp\<lparr>form := \<lparr>title = js ''  '', content = Some (js ''x''), imageFile = Some sampleFile\<rparr>\<rparr>"

definition imageApp :: app where
  "imageApp = sampleApp\<lparr>form := \<lparr>title = js ''Cat'', content = Some (js '' ''), imageFile = Some sampleFile\<rparr>\<rparr>"

text \<open>
  The record the sample store creates for the form of \<open>imageApp\<close>, and the store
  afterwards: it lists the three notes it had and the new one.
\<close>

definition createdNote :: obj where
  "createdNote =
     [(''id'', JStr (js ''n'')), (''title'', JStr (js ''Cat'')), (''content'', JUndefined),
      (''imageKey'', JStr (js ''public/notes/1730_cat.png'')),
      (''image'', JStr (js ''public/notes/1730_cat.png''))]"

text \<open>The payload \<open>createNote\<close> sends for the form of \<open>imageApp\<close>.\<close>

definition createdPayload :: obj where
  "createdPayload =
     [(''title'', JStr (js ''Cat'')), (''content'', JUndefined),
      (''imageKey'', JStr (js ''public/notes/1730_cat.png'')),
      (''image'', JStr (js ''public/notes/1730_cat.png''))]"

definition laterEnv :: env where
  "laterEnv = sampleEnv\<lparr>list_resp := Inr (Some [noteA, noteB, noteC, createdNote], None)\<rparr>"

section \<open>Basic facts\<close>

lemma trim_Nil_iff: "trim s = [] \<longleftrightarrow> list_all isWhiteSpace s"
proof -
  have "dropWhile isWhiteSpace (rev (dropWhile isWhiteSpace s)) = [] \<longleftrightarrow> dropWhile isWhiteSpace s = []"
  proof
    assume a: "dropWhile isWhiteSpace (rev (dropWhile isWhiteSpace s)) = []"
    show "dropWhile isWhiteSpace s = []"
    proof (rule ccontr)
      assume b: "dropWhile isWhiteSpace s \<noteq> []"
      then have "\<not> isWhiteSpace (hd (dropWhile isWhiteSpace s))" by (rule hd_dropWhile)
      moreover have "hd (dropWhile isWhiteSpace s) \<in> set (rev (dropWhile isWhiteSpace s))"
        using b by simp
      ultimately show False using a by (metis dropWhile_eq_Nil_conv)
    qed
  next
    assume "dropWhile isWhiteSpace s = []"
    then show "dropWhile isWhiteSpace (rev (dropWhile isWhiteSpace s)) = []"
      by (metis dropWhile.simps(1) rev.simps(1))
  qed
  then show ?thesis by (simp add: trim_def list_all_iff)
qed

lemma readProp_setProp: "readProp (setProp n k v) k' = (if k' = k then v else readProp n k')"
  by (simp add: readProp_def setProp_def update_conv')

lemma truthy_Some: "truthy (Some k) = (k \<noteq> [])"
  by (simp add: truthy_def)

lemma truthy_None: "truthy None = False"
  by (simp add: truthy_def)

lemma digits_small: "n < 10 \<Longrightarrow> digits n = [digitChar n]"
  by (simp add: digits.simps)

lemma digits_step: "10 \<le> n \<Longrightarrow> digits n = digits (n div 10) @ [digitChar (n mod 10)]"
  by (subst digits.simps) simp

lemma enrichNote_cases:
  "enrichNote env i n =
     (if resolved env i n
      then setProp n ''imageUrl'' (JStr (projr (getUrl_resp env i (the (getImageKey n)))))
      else n)"
  by (auto simp: enrichNote_def resolved_def Let_def split: sum.splits)

lemma noteId_enrichNote: "noteId (enrichNote env i n) = noteId n"
  by (simp add: enrichNote_cases noteId_def readProp_setProp)

lemma fetchNotes_notes:
  "list_resp env = Inr (data, errors) \<Longrightarrow>
   notes (after (fetchNotes env s)) = map (\<lambda>(i, n). enrichNote env i n) (enumerate 0 (recordsOf data))"
  by (simp add: fetchNotes_def Let_def)

lemma fetchNotes_nth:
  assumes "list_resp env = Inr (data, errors)" and "i < length (recordsOf data)"
  shows "notes (after (fetchNotes env s)) ! i = enrichNote env i (recordsOf data ! i)"
  using assms by (simp add: fetchNotes_notes nth_enumerate_eq)

lemma fetchNotes_length:
  "list_resp env = Inr (data, errors) \<Longrightarrow>
   length (notes (after (fetchNotes env s))) = length (recordsOf data)"
  by (simp add: fetchNotes_notes)

lemma fetchNotes_ids:
  assumes "list_resp env = Inr (data, errors)"
  shows "map noteId (notes (after (fetchNotes env s))) = map noteId (recordsOf data)"
proof (rule nth_equalityI)
  show "length (map noteId (notes (after (fetchNotes env s)))) = length (map noteId (recordsOf data))"
    using assms by (simp add: fetchNotes_length)
next
  fix i assume "i < length (map noteId (notes (after (fetchNotes env s))))"
  then have "i < length (recordsOf data)" using assms by (simp add: fetchNotes_length)
  then show "map noteId (notes (after (fetchNotes env s))) ! i = map noteId (recordsOf data) ! i"
    using assms by (simp add: fetchNotes_length fetchNotes_nth noteId_enrichNote)
qed

lemmas sample_defs = sampleEnv_def failingEnv_def refusingEnv_def sampleApp_def blankApp_def imageApp_def
  noteA_def noteB_def noteC_def sampleFile_def js_def

lemmas eval_defs = createNote_def trim_def isWhiteSpace_def Let_def buildCreateInput_def truthy_def logErrors_def
     imagePathOf_def numToString_def digits_small digits_step digitChar_def
     getImageKey_def readStringProp_def readProp_def setProp_def

lemma imagePathOf_nonempty: "imagePathOf env f \<noteq> []"
  by (simp add: imagePathOf_def js_def)

lemma substEntity_media:
  "substEntity uid ''media/{entity_id}/*'' = js ''media/'' @ uid @ js ''/*''"
  by (simp add: js_def)

lemma not_granted_public: "\<not> granted storage uid act (js ''public/notes/'' @ rest)"
  by (simp add: granted_def storage_def pathMatches_def substEntity_media Let_def js_def butlast_append)

lemma trim_dropWhile:
  "dropWhile isWhiteSpace s =
     trim s @ rev (takeWhile isWhiteSpace (rev (dropWhile isWhiteSpace s)))"
proof -
  let ?d = "dropWhile isWhiteSpace s"
  have "trim s @ rev (takeWhile isWhiteSpace (rev ?d)) =
        rev (takeWhile isWhiteSpace (rev ?d) @ dropWhile isWhiteSpace (rev ?d))"
    unfolding trim_def by (rule rev_append [symmetric])
  also have "\<dots> = ?d" by simp
  finally show ?thesis by simp
qed

lemma trim_decomp:
  "\<exists>l r. s = l @ trim s @ r \<and> list_all isWhiteSpace l \<and> list_all isWhiteSpace r"
proof -
  let ?d = "dropWhile isWhiteSpace s"
  have 1: "s = takeWhile isWhiteSpace s @ ?d" by simp
  have 2: "?d = trim s @ rev (takeWhile isWhiteSpace (rev ?d))"
    by (rule trim_dropWhile)
  have 3: "list_all isWhiteSpace (takeWhile isWhiteSpace s)"
    by (simp add: list_all_iff) (meson set_takeWhileD)
  have 4: "list_all isWhiteSpace (rev (takeWhile isWhiteSpace (rev ?d)))"
    by (simp add: list_all_iff) (meson set_takeWhileD)
  have "s = takeWhile isWhiteSpace s @ trim s @ rev (takeWhile isWhiteSpace (rev ?d))"
    using 1 2 by metis
  then show ?thesis using 3 4 by blast
qed

lemma trim_ends:
  assumes "trim s \<noteq> []"
  shows "\<not> isWhiteSpace (hd (trim s)) \<and> \<not> isWhiteSpace (last (trim s))"
proof -
  let ?d = "dropWhile isWhiteSpace s"
  let ?e = "dropWhile isWhiteSpace (rev ?d)"
  have e: "?e \<noteq> []" using assms by (simp add: trim_def)
  then have l: "\<not> isWhiteSpace (hd ?e)" by (rule hd_dropWhile)
  have "last (trim s) = hd ?e" using e by (simp add: trim_def last_rev)
  then have a: "\<not> isWhiteSpace (last (trim s))" using l by simp
  have d: "?d = trim s @ rev (takeWhile isWhiteSpace (rev ?d))"
    by (rule trim_dropWhile)
  then have "?d \<noteq> []" using assms by (metis append_is_Nil_conv)
  then have "\<not> isWhiteSpace (hd ?d)" by (rule hd_dropWhile)
  moreover have "hd ?d = hd (trim s)" using d assms by (metis hd_append2)
  ultimately show ?thesis using a by simp
qed

lemma createNote_create_calls:
  "CreateCall input \<in> set (events (createNote env s)) \<Longrightarrow>
   input = buildCreateInput
             \<lparr>btitle = trim (title (form s)),
              bcontent = (case content (form s) of
                            None \<Rightarrow> None
                          | Some c \<Rightarrow> if trim c = [] then None else Some (trim c))\<rparr>
             (case imageFile (form s) of None \<Rightarrow> None | Some f \<Rightarrow> Some (imagePathOf env f))"
  by (auto simp: createNote_def Let_def logErrors_def split: if_splits sum.splits option.splits prod.splits)

lemma buildCreateInput_title: "readProp (buildCreateInput b k) ''title'' = JStr (btitle b)"
  by (simp add: buildCreateInput_def Let_def readProp_setProp) (simp add: readProp_def)

lemma buildCreateInput_content:
  "readProp (buildCreateInput b k) ''content'' =
     (case bcontent b of None \<Rightarrow> JUndefined | Some c \<Rightarrow> JStr c)"
  by (simp add: buildCreateInput_def Let_def readProp_setProp) (simp add: readProp_def)

lemma digitChar_value:
  assumes "d < 10"
  shows "unat (digitChar d) - 48 = d"
proof -
  have "unat (word_of_nat (48 + d) :: 16 word) = (48 + d) mod 2 ^ LENGTH(16)"
    by (rule unat_of_nat)
  also have "\<dots> = 48 + d" using assms by simp
  finally show ?thesis unfolding digitChar_def by simp
qed

lemma decimalValue_digits: "decimalValue (digits n) = n"
proof (induction n rule: digits.induct)
  case (1 n)
  show ?case
  proof (cases "n < 10")
    case True
    then show ?thesis by (simp add: digits_small decimalValue_def digitChar_value)
  next
    case False
    then have "decimalValue (digits (n div 10)) = n div 10" using "1" by simp
    then show ?thesis using False
      by (simp add: digits_step decimalValue_def digitChar_value)
  qed
qed

lemma createNoteOn_self: "createNoteOn env s s = createNote env s"
  unfolding createNoteOn_def createNote_def by (rule refl)

lemma createNoteOn_unique:
  assumes "uniqueIds (notes cur)"
    and "noteId ` set (notes cur) \<subseteq> noteId ` set stored"
    and "\<forall>input c errors. create_resp env input = Inr (Some c, errors) \<longrightarrow>
           noteId c \<notin> noteId ` set stored"
  shows "uniqueIds (notes (after (createNoteOn env s cur)))"
  using assms
  by (auto simp: createNoteOn_def Let_def uniqueIds_def noteId_def readProp_setProp
           split: sum.splits option.splits prod.splits)

lemma createNote_sends_create:
  assumes "\<not> list_all isWhiteSpace (title (form s))"
    and "case imageFile (form s) of None \<Rightarrow> True | Some f \<Rightarrow> \<not> isl (upload_resp env (imagePathOf env f) f)"
  shows "\<exists>input. CreateCall input \<in> set (events (createNote env s))"
  using assms
  by (auto simp: createNote_def Let_def trim_Nil_iff logErrors_def
           split: sum.splits option.splits prod.splits)

lemma create_on:
  "notes (after (createNoteOn sampleEnv imageApp cur)) =
     setProp createdNote ''imageUrl'' (JStr (js ''https://u/public/notes/1730_cat.png'')) # notes cur"
  by (simp add: createNoteOn_def trim_def isWhiteSpace_def Let_def buildCreateInput_def truthy_def logErrors_def
     imagePathOf_def numToString_def digits_small digits_step digitChar_def
     getImageKey_def readStringProp_def readProp_def setProp_def createdNote_def sample_defs)

lemma fetch_later:
  "notes (after (fetchNotes laterEnv imageApp)) =
     [setProp noteA ''imageUrl'' (JStr (js ''https://u/k1'')), noteB, noteC,
      setProp createdNote ''imageUrl'' (JStr (js ''https://u/public/notes/1730_cat.png''))]"
  by (simp add: fetchNotes_def Let_def recordsOf_def enumerate_eq_zip upt_rec enrichNote_def
        getImageKey_def readStringProp_def readProp_def truthy_def laterEnv_def createdNote_def sample_defs)

section \<open>fetchNotes: one display note per record\<close>

text \<open>
  C1. Whatever list the record store returns, \<open>fetchNotes\<close> resolves and replaces the
  in-memory list by one display note per record, in the store's order. The note at
  position \<open>i\<close> is the record at position \<open>i\<close>, with \<open>imageUrl\<close> set exactly when the
  record carries a non-empty image key and the URL asked for it is resolved; every
  other property is the record's. A rejected resolution leaves the record as it is,
  and the entry at a position depends on no answer but the one to its own request.
  (Records come from the store without an \<open>imageUrl\<close> of their own.)
\<close>

theorem fetchNotes_one_display_note_per_record:
  assumes "list_resp env = Inr (data, errors)"
    and "\<forall>n\<in>set (recordsOf data). \<not> hasImageUrl n"
  shows "outcome (fetchNotes env s) = None \<and>
     length (notes (after (fetchNotes env s))) = length (recordsOf data) \<and>
     (\<forall>i<length (recordsOf data).
        notes (after (fetchNotes env s)) ! i =
          (if resolved env i (recordsOf data ! i)
           then setProp (recordsOf data ! i) ''imageUrl''
                  (JStr (projr (getUrl_resp env i (the (getImageKey (recordsOf data ! i))))))
           else recordsOf data ! i) \<and>
        (hasImageUrl (notes (after (fetchNotes env s)) ! i) \<longleftrightarrow> resolved env i (recordsOf data ! i)) \<and>
        (\<forall>k. k \<noteq> ''imageUrl'' \<longrightarrow>
           readProp (notes (after (fetchNotes env s)) ! i) k = readProp (recordsOf data ! i) k)) \<and>
     (\<forall>env' s'. list_resp env' = list_resp env \<longrightarrow>
        (\<forall>i<length (recordsOf data). getUrl_resp env' i = getUrl_resp env i \<longrightarrow>
           notes (after (fetchNotes env' s')) ! i = notes (after (fetchNotes env s)) ! i))"
proof -
  have o: "outcome (fetchNotes env s) = None"
    using assms(1) by (simp add: fetchNotes_def Let_def)
  have l: "length (notes (after (fetchNotes env s))) = length (recordsOf data)"
    using assms(1) by (rule fetchNotes_length)
  have p: "notes (after (fetchNotes env s)) ! i =
          (if resolved env i (recordsOf data ! i)
           then setProp (recordsOf data ! i) ''imageUrl''
                  (JStr (projr (getUrl_resp env i (the (getImageKey (recordsOf data ! i))))))
           else recordsOf data ! i) \<and>
        (hasImageUrl (notes (after (fetchNotes env s)) ! i) \<longleftrightarrow> resolved env i (recordsOf data ! i)) \<and>
        (\<forall>k. k \<noteq> ''imageUrl'' \<longrightarrow>
           readProp (notes (after (fetchNotes env s)) ! i) k = readProp (recordsOf data ! i) k)"
    if i: "i < length (recordsOf data)" for i
  proof -
    have n: "notes (after (fetchNotes env s)) ! i = enrichNote env i (recordsOf data ! i)"
      using assms(1) i by (rule fetchNotes_nth)
    have "\<not> hasImageUrl (recordsOf data ! i)"
      using assms(2) i by simp
    then show ?thesis
      unfolding n by (simp add: enrichNote_cases hasImageUrl_def readProp_setProp)
  qed
  have q: "notes (after (fetchNotes env' s')) ! i = notes (after (fetchNotes env s)) ! i"
    if "list_resp env' = list_resp env" and "i < length (recordsOf data)"
      and "getUrl_resp env' i = getUrl_resp env i" for env' s' i
  proof -
    have "list_resp env' = Inr (data, errors)" using that(1) assms(1) by simp
    then have "notes (after (fetchNotes env' s')) ! i = enrichNote env' i (recordsOf data ! i)"
      using that(2) by (rule fetchNotes_nth)
    moreover have "notes (after (fetchNotes env s)) ! i = enrichNote env i (recordsOf data ! i)"
      using assms(1) that(2) by (rule fetchNotes_nth)
    ultimately show ?thesis using that(3) by (simp add: enrichNote_def Let_def)
  qed
  show ?thesis using o l p q by blast
qed

theorem fetchNotes_one_display_note_per_record_witness:
  "outcome (fetchNotes sampleEnv sampleApp) = None \<and>
   length (notes (after (fetchNotes sampleEnv sampleApp))) = 3 \<and>
   hasImageUrl (notes (after (fetchNotes sampleEnv sampleApp)) ! 0) \<and>
   \<not> hasImageUrl (notes (after (fetchNotes sampleEnv sampleApp)) ! 1) \<and>
   \<not> hasImageUrl (notes (after (fetchNotes sampleEnv sampleApp)) ! 2) \<and>
   notes (after (fetchNotes sampleEnv sampleApp)) ! 1 = noteB"
proof -
  have h1: "list_resp sampleEnv = Inr (Some [noteA, noteB, noteC], None)"
    by (simp add: sampleEnv_def)
  have h2: "\<forall>n\<in>set (recordsOf (Some [noteA, noteB, noteC])). \<not> hasImageUrl n"
    by (simp add: recordsOf_def hasImageUrl_def readProp_def noteA_def noteB_def noteC_def)
  have r: "resolved sampleEnv 0 noteA" "\<not> resolved sampleEnv 1 noteB" "\<not> resolved sampleEnv 2 noteC"
    by (simp_all add: resolved_def getImageKey_def readStringProp_def readProp_def truthy_def sample_defs)
  note t = fetchNotes_one_display_note_per_record [OF h1 h2, of sampleApp]
  have o: "outcome (fetchNotes sampleEnv sampleApp) = None"
    using t [THEN conjunct1] .
  have l: "length (notes (after (fetchNotes sampleEnv sampleApp))) = 3"
    using t [THEN conjunct2, THEN conjunct1] by (simp add: recordsOf_def)
  note p = t [THEN conjunct2, THEN conjunct2, THEN conjunct1, rule_format]
  have p0: "hasImageUrl (notes (after (fetchNotes sampleEnv sampleApp)) ! 0)"
    using p [of 0] r(1) by (simp add: recordsOf_def hasImageUrl_def readProp_setProp)
  have p1: "\<not> hasImageUrl (notes (after (fetchNotes sampleEnv sampleApp)) ! 1)"
    using p [of 1] r(2) by (simp add: recordsOf_def hasImageUrl_def readProp_def noteB_def)
  have p2: "\<not> hasImageUrl (notes (after (fetchNotes sampleEnv sampleApp)) ! 2)"
    using p [of 2] r(3) by (simp add: recordsOf_def hasImageUrl_def readProp_def noteC_def)
  have p3: "notes (after (fetchNotes sampleEnv sampleApp)) ! 1 = noteB"
    using p [of 1] r(2) by (simp add: recordsOf_def)
  show ?thesis using o l p0 p1 p2 p3 by simp
qed


section \<open>createNote: errors reported by the store\<close>

text \<open>
  C2. \<open>createNote\<close> is to log the errors the record store reports on create and
  not to throw. When the store answers with errors and no record, the errors are
  logged, and then \<open>getImageKey\<close> reads a property of \<open>null\<close>: the operation throws a
  \<open>TypeError\<close>, and the list and the form stay as they were.
\<close>

theorem createNote_store_errors_without_record_throws: "createNote refusingEnv sampleApp =
   \<lparr>outcome = Some TypeError, after = sampleApp,
    events = [PreventDefault,
              CreateCall [(''title'', JStr (js ''My Title'')), (''content'', JStr (js ''body''))],
              ConsoleError ''Create errors:'' [''Unauthorized'']]\<rparr>"
  by (simp add: eval_defs sample_defs)

section \<open>createNote: a blank title\<close>

text \<open>
  C3. When the title of the form is empty or consists of white space only,
  \<open>createNote\<close> returns normally and leaves the state as it was; it calls neither
  the create operation of the record store nor the upload of the blob store.
\<close>

theorem createNote_blank_title_noop:
  assumes "list_all isWhiteSpace (title (form s))"
  shows "createNote env s = \<lparr>outcome = None, after = s, events = [PreventDefault]\<rparr> \<and>
         \<not> list_ex isCreateCall (events (createNote env s)) \<and>
         \<not> list_ex isUploadCall (events (createNote env s))"
  using assms by (simp add: createNote_def trim_Nil_iff)

theorem createNote_blank_title_noop_witness:
  "list_all isWhiteSpace (title (form blankApp)) \<and>
   createNote sampleEnv blankApp = \<lparr>outcome = None, after = blankApp, events = [PreventDefault]\<rparr>"
proof -
  have h: "list_all isWhiteSpace (title (form blankApp))"
    by (simp add: blankApp_def sampleApp_def js_def isWhiteSpace_def)
  from createNote_blank_title_noop [OF h, of sampleEnv] h show ?thesis by simp
qed

section \<open>createNote: the upload comes first\<close>

text \<open>
  C4. With an image file in the form, a create call is issued only after the upload
  call, and only when the upload has resolved. When the upload rejects, the operation
  throws the upload's error, no create call is made and the state is unchanged; when
  it resolves, the create call is the next thing the operation does.
\<close>

theorem createNote_upload_precedes_create:
  assumes "imageFile (form s) = Some f"
  shows "(list_ex isCreateCall (events (createNote env s)) \<longrightarrow>
            UploadCall (imagePathOf env f) f \<in> set (takeWhile (\<lambda>e. \<not> isCreateCall e) (events (createNote env s))) \<and>
            \<not> isl (upload_resp env (imagePathOf env f) f)) \<and>
         (\<forall>e. \<not> list_all isWhiteSpace (title (form s)) \<and> upload_resp env (imagePathOf env f) f = Inl e \<longrightarrow>
            createNote env s =
              \<lparr>outcome = Some e, after = s, events = [PreventDefault, UploadCall (imagePathOf env f) f]\<rparr>) \<and>
         (\<not> list_all isWhiteSpace (title (form s)) \<and> \<not> isl (upload_resp env (imagePathOf env f) f) \<longrightarrow>
            (\<exists>input. take 3 (events (createNote env s)) =
               [PreventDefault, UploadCall (imagePathOf env f) f, CreateCall input]))"
  using assms
  by (auto simp: createNote_def Let_def trim_Nil_iff logErrors_def split: sum.splits option.splits prod.splits)

theorem createNote_upload_precedes_create_witness:
  "createNote failingEnv imageApp =
     \<lparr>outcome = Some (Rejected ''AccessDenied''), after = imageApp,
      events = [PreventDefault, UploadCall (js ''public/notes/1730_cat.png'') sampleFile]\<rparr> \<and>
   take 3 (events (createNote sampleEnv imageApp)) =
     [PreventDefault, UploadCall (js ''public/notes/1730_cat.png'') sampleFile,
      CreateCall [(''title'', JStr (js ''Cat'')), (''content'', JUndefined),
                  (''imageKey'', JStr (js ''public/notes/1730_cat.png'')),
                  (''image'', JStr (js ''public/notes/1730_cat.png''))]]"
proof -
  have h: "imageFile (form imageApp) = Some sampleFile"
    by (simp add: imageApp_def)
  have p: "imagePathOf failingEnv sampleFile = js ''public/notes/1730_cat.png''"
    by (simp add: imagePathOf_def numToString_def digits_small digits_step digitChar_def sample_defs)
  have t: "\<not> list_all isWhiteSpace (title (form imageApp))"
    by (simp add: imageApp_def js_def isWhiteSpace_def)
  have u: "upload_resp failingEnv (imagePathOf failingEnv sampleFile) sampleFile = Inl (Rejected ''AccessDenied'')"
    by (simp add: failingEnv_def sampleEnv_def)
  have a: "createNote failingEnv imageApp =
     \<lparr>outcome = Some (Rejected ''AccessDenied''), after = imageApp,
      events = [PreventDefault, UploadCall (js ''public/notes/1730_cat.png'') sampleFile]\<rparr>"
    using createNote_upload_precedes_create [OF h, of failingEnv, THEN conjunct2, THEN conjunct1, rule_format, OF conjI, OF t u]
    by (simp only: p)
  have b: "take 3 (events (createNote sampleEnv imageApp)) =
     [PreventDefault, UploadCall (js ''public/notes/1730_cat.png'') sampleFile,
      CreateCall [(''title'', JStr (js ''Cat'')), (''content'', JUndefined),
                  (''imageKey'', JStr (js ''public/notes/1730_cat.png'')),
                  (''image'', JStr (js ''public/notes/1730_cat.png''))]]"
    by (simp add: eval_defs sample_defs)
  show ?thesis using a b by simp
qed

section \<open>deleteNote: removal by id\<close>

text \<open>
  C5. \<open>deleteNote\<close> calls the delete operation of the record store first. When the
  call resolves, the in-memory list is the former list without the notes whose id is
  the argument, the others in their former order. When the call rejects, the
  operation throws that error and the state is unchanged.
\<close>

theorem deleteNote_filters_by_id:
  "(\<forall>e. delete_resp env i = Inl e \<longrightarrow>
       outcome (deleteNote env i s) = Some e \<and> after (deleteNote env i s) = s) \<and>
   (\<forall>r. delete_resp env i = Inr r \<longrightarrow>
       outcome (deleteNote env i s) = None \<and>
       notes (after (deleteNote env i s)) = filter (\<lambda>n. noteId n \<noteq> JStr i) (notes s) \<and>
       JStr i \<notin> noteId ` set (notes (after (deleteNote env i s))) \<and>
       subseq (notes (after (deleteNote env i s))) (notes s)) \<and>
   events (deleteNote env i s) = [DeleteCall i]"
  by (auto simp: deleteNote_def noteId_def split: sum.splits)

theorem deleteNote_filters_by_id_witness:
  "notes (after (deleteNote sampleEnv (js ''c'') sampleApp)) = [noteA] \<and>
   outcome (deleteNote sampleEnv (js ''c'') sampleApp) = None \<and>
   outcome (deleteNote failingEnv (js ''c'') sampleApp) = Some (Rejected ''Network'') \<and>
   after (deleteNote failingEnv (js ''c'') sampleApp) = sampleApp"
proof -
  have h1: "delete_resp sampleEnv (js ''c'') = Inr (None, None)"
    by (simp add: sampleEnv_def)
  have h2: "delete_resp failingEnv (js ''c'') = Inl (Rejected ''Network'')"
    by (simp add: failingEnv_def sampleEnv_def)
  note a = deleteNote_filters_by_id [of sampleEnv "js ''c''" sampleApp, THEN conjunct2, THEN conjunct1, rule_format, OF h1]
  note b = deleteNote_filters_by_id [of failingEnv "js ''c''" sampleApp, THEN conjunct1, rule_format, OF h2]
  have "filter (\<lambda>n. noteId n \<noteq> JStr (js ''c'')) (notes sampleApp) = [noteA]"
    by (simp add: noteId_def readProp_def sample_defs)
  then show ?thesis using a b by simp
qed

section \<open>createNote: the object key of an upload\<close>

text \<open>
  C6. With an image file in the form, the path of every upload is \<open>public/notes/\<close>,
  the current time, an underscore and the name of the file, and for a non-blank title
  that upload is issued. The storage configuration has the single access path
  \<open>media/{entity_id}/*\<close>, and it grants no identity any action on such a path.
  The time is printed in decimal.
\<close>

theorem createNote_upload_key_outside_granted_paths:
  assumes "imageFile (form s) = Some f"
  shows "(\<forall>p g. UploadCall p g \<in> set (events (createNote env s)) \<longrightarrow>
            p = js ''public/notes/'' @ numToString (now env) @ js ''_'' @ fname f \<and> g = f \<and>
            (\<forall>uid act. \<not> granted storage uid act p)) \<and>
         (\<not> list_all isWhiteSpace (title (form s)) \<longrightarrow>
            events (createNote env s) ! 1 =
              UploadCall (js ''public/notes/'' @ numToString (now env) @ js ''_'' @ fname f) f) \<and>
         map fst (access storage) = [''media/{entity_id}/*''] \<and>
         (0 \<le> now env \<longrightarrow> decimalValue (numToString (now env)) = nat (now env))"
proof -
  have a: "p = js ''public/notes/'' @ numToString (now env) @ js ''_'' @ fname f \<and> g = f \<and>
            (\<forall>uid act. \<not> granted storage uid act p)"
    if "UploadCall p g \<in> set (events (createNote env s))" for p g
  proof -
    have "p = imagePathOf env f \<and> g = f"
      using that assms
      by (auto simp: createNote_def Let_def logErrors_def split: if_splits sum.splits option.splits prod.splits)
    then show ?thesis by (simp add: imagePathOf_def not_granted_public)
  qed
  have b: "events (createNote env s) ! 1 =
              UploadCall (js ''public/notes/'' @ numToString (now env) @ js ''_'' @ fname f) f"
    if "\<not> list_all isWhiteSpace (title (form s))"
    using that assms
    by (auto simp: createNote_def Let_def trim_Nil_iff imagePathOf_def logErrors_def 
           split: sum.splits option.splits prod.splits)
  have c: "map fst (access storage) = [''media/{entity_id}/*'']"
    by (simp add: storage_def)
  have a1: "\<forall>p g. UploadCall p g \<in> set (events (createNote env s)) \<longrightarrow>
            p = js ''public/notes/'' @ numToString (now env) @ js ''_'' @ fname f \<and> g = f \<and>
            (\<forall>uid act. \<not> granted storage uid act p)"
    using a by blast
  have b1: "\<not> list_all isWhiteSpace (title (form s)) \<longrightarrow>
            events (createNote env s) ! 1 =
              UploadCall (js ''public/notes/'' @ numToString (now env) @ js ''_'' @ fname f) f"
    using b by blast
  have d: "0 \<le> now env \<longrightarrow> decimalValue (numToString (now env)) = nat (now env)"
    by (simp add: numToString_def decimalValue_digits)
  show ?thesis by (intro conjI a1 b1 c d)
qed

theorem createNote_upload_key_outside_granted_paths_witness:
  "events (createNote sampleEnv imageApp) ! 1 = UploadCall (js ''public/notes/1730_cat.png'') sampleFile \<and>
   \<not> granted storage (js ''user1'') Write (js ''public/notes/1730_cat.png'') \<and>
   granted storage (js ''user1'') Write (js ''media/user1/cat.png'')"
proof -
  have h: "imageFile (form imageApp) = Some sampleFile"
    by (simp add: imageApp_def)
  have t: "\<not> list_all isWhiteSpace (title (form imageApp))"
    by (simp add: imageApp_def js_def isWhiteSpace_def)
  have p: "js ''public/notes/'' @ numToString (now sampleEnv) @ js ''_'' @ fname sampleFile =
           js ''public/notes/1730_cat.png''"
    by (simp add: numToString_def digits_small digits_step digitChar_def sample_defs)
  note k = createNote_upload_key_outside_granted_paths [OF h, of sampleEnv]
  have a: "events (createNote sampleEnv imageApp) ! 1 = UploadCall (js ''public/notes/1730_cat.png'') sampleFile"
    using k [THEN conjunct2, THEN conjunct1, rule_format, OF t] by (simp only: p)
  have "UploadCall (js ''public/notes/1730_cat.png'') sampleFile \<in> set (events (createNote sampleEnv imageApp))"
    by (simp add: eval_defs sample_defs)
  then have b: "\<not> granted storage (js ''user1'') Write (js ''public/notes/1730_cat.png'')"
    using k [THEN conjunct1] by blast
  have c: "granted storage (js ''user1'') Write (js ''media/user1/cat.png'')"
    by (simp add: granted_def storage_def pathMatches_def substEntity_media Let_def js_def)
  show ?thesis using a b c by simp
qed

section \<open>fetchNotes: the loading indicator\<close>

text \<open>
  C7. \<open>fetchNotes\<close> sets the loading indicator before it calls the list operation
  and clears it last, with no other toggle in between; the indicator is cleared
  whether the list call resolves or rejects. When the list call rejects, the
  operation throws its error and the list of notes is unchanged.
\<close>

theorem fetchNotes_loading_cleared:
  "loading (after (fetchNotes env s)) = False \<and>
   (\<exists>mid. events (fetchNotes env s) = [SetLoading True, ListCall] @ mid @ [SetLoading False] \<and>
       list_all (\<lambda>e. e \<noteq> SetLoading True \<and> e \<noteq> SetLoading False) mid) \<and>
   outcome (fetchNotes env s) = (case list_resp env of Inl e \<Rightarrow> Some e | Inr r \<Rightarrow> None) \<and>
   (isl (list_resp env) \<longrightarrow> notes (after (fetchNotes env s)) = notes s)"
  by (auto simp: fetchNotes_def Let_def logErrors_def urlCalls_def list_all_iff split: sum.splits option.splits prod.splits)

theorem fetchNotes_loading_cleared_witness:
  "loading (after (fetchNotes sampleEnv sampleApp)) = False \<and>
   loading (after (fetchNotes failingEnv sampleApp)) = False \<and>
   outcome (fetchNotes failingEnv sampleApp) = Some (Rejected ''Network'') \<and>
   events (fetchNotes failingEnv sampleApp) = [SetLoading True, ListCall, SetLoading False] \<and>
   events (fetchNotes sampleEnv sampleApp) =
     [SetLoading True, ListCall, GetUrlCall (js ''k1''), GetUrlCall (js ''k2''), SetLoading False]"
proof -
  note a = fetchNotes_loading_cleared [of sampleEnv sampleApp, THEN conjunct1]
  note b = fetchNotes_loading_cleared [of failingEnv sampleApp, THEN conjunct1]
  note c = fetchNotes_loading_cleared [of failingEnv sampleApp, THEN conjunct2, THEN conjunct2, THEN conjunct1]
  have d: "events (fetchNotes failingEnv sampleApp) = [SetLoading True, ListCall, SetLoading False]"
    by (simp add: fetchNotes_def failingEnv_def sampleEnv_def Let_def)
  have e: "events (fetchNotes sampleEnv sampleApp) =
     [SetLoading True, ListCall, GetUrlCall (js ''k1''), GetUrlCall (js ''k2''), SetLoading False]"
    by (simp add: fetchNotes_def Let_def logErrors_def urlCalls_def recordsOf_def 
           getImageKey_def readStringProp_def readProp_def truthy_def sample_defs)
  show ?thesis using a b c d e by (simp add: failingEnv_def sampleEnv_def)
qed

section \<open>createNote: trimming\<close>

text \<open>
  C8. The payload of every create call has the trimmed title as \<open>title\<close>, and as
  \<open>content\<close> the trimmed content, or \<open>undefined\<close> when the content is absent or
  empty after trimming; with a non-blank title and no failed upload the create call
  is made. \<open>trim\<close> removes white space at both ends and nothing else.
\<close>

theorem createNote_trims_title_and_content:
  "(\<forall>input. CreateCall input \<in> set (events (createNote env s)) \<longrightarrow>
       readProp input ''title'' = JStr (trim (title (form s))) \<and>
       readProp input ''content'' =
         (case content (form s) of
            None \<Rightarrow> JUndefined
          | Some c \<Rightarrow> if trim c = [] then JUndefined else JStr (trim c))) \<and>
   (\<not> list_all isWhiteSpace (title (form s)) \<and>
    (case imageFile (form s) of None \<Rightarrow> True | Some f \<Rightarrow> \<not> isl (upload_resp env (imagePathOf env f) f)) \<longrightarrow>
       list_ex isCreateCall (events (createNote env s))) \<and>
   (\<exists>l r. x = l @ trim x @ r \<and> list_all isWhiteSpace l \<and> list_all isWhiteSpace r) \<and>
   (trim x \<noteq> [] \<longrightarrow> \<not> isWhiteSpace (hd (trim x)) \<and> \<not> isWhiteSpace (last (trim x)))"
proof -
  have a: "readProp input ''title'' = JStr (trim (title (form s))) \<and>
       readProp input ''content'' =
         (case content (form s) of
            None \<Rightarrow> JUndefined
          | Some c \<Rightarrow> if trim c = [] then JUndefined else JStr (trim c))"
    if "CreateCall input \<in> set (events (createNote env s))" for input
    unfolding createNote_create_calls [OF that]
    by (simp add: buildCreateInput_title buildCreateInput_content split: option.splits)
  have b: "list_ex isCreateCall (events (createNote env s))"
    if "\<not> list_all isWhiteSpace (title (form s)) \<and>
        (case imageFile (form s) of None \<Rightarrow> True | Some f \<Rightarrow> \<not> isl (upload_resp env (imagePathOf env f) f))"
    using that
    by (auto simp: createNote_def Let_def trim_Nil_iff logErrors_def
             split: sum.splits option.splits prod.splits)
  have a1: "\<forall>input. CreateCall input \<in> set (events (createNote env s)) \<longrightarrow>
       readProp input ''title'' = JStr (trim (title (form s))) \<and>
       readProp input ''content'' =
         (case content (form s) of
            None \<Rightarrow> JUndefined
          | Some c \<Rightarrow> if trim c = [] then JUndefined else JStr (trim c))"
    using a by blast
  have b1: "\<not> list_all isWhiteSpace (title (form s)) \<and>
    (case imageFile (form s) of None \<Rightarrow> True | Some f \<Rightarrow> \<not> isl (upload_resp env (imagePathOf env f) f)) \<longrightarrow>
       list_ex isCreateCall (events (createNote env s))"
    using b by blast
  have d1: "trim x \<noteq> [] \<longrightarrow> \<not> isWhiteSpace (hd (trim x)) \<and> \<not> isWhiteSpace (last (trim x))"
    using trim_ends [of x] by blast
  show ?thesis by (intro conjI a1 b1 trim_decomp d1)
qed

theorem createNote_trims_title_and_content_witness:
  "events (createNote sampleEnv sampleApp) ! 1 =
     CreateCall [(''title'', JStr (js ''My Title'')), (''content'', JStr (js ''body''))] \<and>
   trim (js '' My Title '') = js ''My Title'' \<and>
   trim (js '' body '') = js ''body'' \<and>
   readProp [(''title'', JStr (js ''My Title'')), (''content'', JStr (js ''body''))] ''title'' = JStr (js ''My Title'') \<and>
   readProp [(''title'', JStr (js ''My Title'')), (''content'', JStr (js ''body''))] ''content'' = JStr (js ''body'')"
proof -
  have e: "events (createNote sampleEnv sampleApp) =
     [PreventDefault, CreateCall [(''title'', JStr (js ''My Title'')), (''content'', JStr (js ''body''))],
      FormReset]"
    by (simp add: eval_defs sample_defs)
  then have m: "CreateCall [(''title'', JStr (js ''My Title'')), (''content'', JStr (js ''body''))]
       \<in> set (events (createNote sampleEnv sampleApp))"
    by simp
  have t: "trim (js '' My Title '') = js ''My Title''" "trim (js '' body '') = js ''body''"
    by (simp_all add: trim_def isWhiteSpace_def js_def)
  have f: "title (form sampleApp) = js '' My Title ''" "content (form sampleApp) = Some (js '' body '')"
    by (simp_all add: sampleApp_def)
  have n: "js ''body'' \<noteq> []" by (simp add: js_def)
  note k = createNote_trims_title_and_content [of sampleEnv sampleApp "js '' My Title ''", THEN conjunct1, rule_format, OF m]
  have r: "readProp [(''title'', JStr (js ''My Title'')), (''content'', JStr (js ''body''))] ''title'' = JStr (js ''My Title'') \<and>
   readProp [(''title'', JStr (js ''My Title'')), (''content'', JStr (js ''body''))] ''content'' = JStr (js ''body'')"
    using k n by (simp add: f t)
  show ?thesis using e t r by simp
qed

section \<open>Unique ids\<close>

text \<open>
  C9. Let the ids of the in-memory list be pairwise distinct at the time an operation
  applies its update. They are still so after the whole-list replacement of
  \<open>fetchNotes\<close>, when the listed records have distinct ids, and after the filter of
  \<open>deleteNote\<close>. They are still so after the prepend of \<open>createNote\<close> when the list
  holds only ids the store had before the create call and the store gives the created
  record an id it did not have: so when no other operation has put the created record
  in the list between the create call and the prepend, as in a run of \<open>createNote\<close>
  with nothing in between, which is \<open>createNoteOn\<close> on the state of the call.
\<close>

theorem unique_ids_preserved_on_current_list:
  assumes "uniqueIds (notes cur)"
  shows "((case list_resp env of Inl e \<Rightarrow> True | Inr (data, errors) \<Rightarrow> uniqueIds (recordsOf data)) \<longrightarrow>
            uniqueIds (notes (after (fetchNotes env cur)))) \<and>
         (noteId ` set (notes cur) \<subseteq> noteId ` set stored \<and>
          (\<forall>input c errors. create_resp env input = Inr (Some c, errors) \<longrightarrow>
              noteId c \<notin> noteId ` set stored) \<longrightarrow>
            uniqueIds (notes (after (createNoteOn env s cur)))) \<and>
         uniqueIds (notes (after (deleteNote env i cur))) \<and>
         createNoteOn env s s = createNote env s"
proof -
  have f: "uniqueIds (notes (after (fetchNotes env cur)))"
    if "case list_resp env of Inl e \<Rightarrow> True | Inr (data, errors) \<Rightarrow> uniqueIds (recordsOf data)"
  proof (cases "list_resp env")
    case (Inl e)
    then show ?thesis using assms by (simp add: fetchNotes_def Let_def)
  next
    case (Inr r)
    obtain data errors where r: "r = (data, errors)" by (cases r)
    have "uniqueIds (recordsOf data)" using that Inr r by simp
    then show ?thesis using fetchNotes_ids [of env data errors cur] Inr r
      by (simp add: uniqueIds_def)
  qed
  have f1: "(case list_resp env of Inl e \<Rightarrow> True | Inr (data, errors) \<Rightarrow> uniqueIds (recordsOf data)) \<longrightarrow>
            uniqueIds (notes (after (fetchNotes env cur)))"
    using f by blast
  have c1: "noteId ` set (notes cur) \<subseteq> noteId ` set stored \<and>
          (\<forall>input c errors. create_resp env input = Inr (Some c, errors) \<longrightarrow>
              noteId c \<notin> noteId ` set stored) \<longrightarrow>
            uniqueIds (notes (after (createNoteOn env s cur)))"
  proof
    assume h: "noteId ` set (notes cur) \<subseteq> noteId ` set stored \<and>
          (\<forall>input c errors. create_resp env input = Inr (Some c, errors) \<longrightarrow>
              noteId c \<notin> noteId ` set stored)"
    show "uniqueIds (notes (after (createNoteOn env s cur)))"
      using assms h [THEN conjunct1] h [THEN conjunct2] by (rule createNoteOn_unique)
  qed
  have d: "uniqueIds (notes (after (deleteNote env i cur)))"
    using assms by (auto simp: deleteNote_def uniqueIds_def distinct_map_filter split: sum.splits)
  show ?thesis by (intro conjI f1 c1 d createNoteOn_self)
qed

theorem unique_ids_preserved_on_current_list_witness:
  "uniqueIds (notes sampleApp) \<and>
   noteId ` set (notes sampleApp) \<subseteq> noteId ` set [noteA, noteB, noteC] \<and>
   uniqueIds (notes (after (fetchNotes sampleEnv sampleApp))) \<and>
   uniqueIds (notes (after (createNoteOn sampleEnv imageApp sampleApp))) \<and>
   uniqueIds (notes (after (deleteNote sampleEnv (js ''a'') sampleApp))) \<and>
   length (notes (after (createNoteOn sampleEnv imageApp sampleApp))) = 3"
proof -
  have h0: "uniqueIds (notes sampleApp)"
    by (simp add: uniqueIds_def noteId_def readProp_def sample_defs)
  have h1: "case list_resp sampleEnv of Inl e \<Rightarrow> True | Inr (data, errors) \<Rightarrow> uniqueIds (recordsOf data)"
    by (simp add: uniqueIds_def noteId_def readProp_def recordsOf_def sample_defs)
  have h2: "noteId ` set (notes sampleApp) \<subseteq> noteId ` set [noteA, noteB, noteC]"
    by (simp add: sampleApp_def)
  have h3: "\<forall>input c errors. create_resp sampleEnv input = Inr (Some c, errors) \<longrightarrow>
              noteId c \<notin> noteId ` set [noteA, noteB, noteC]"
    by (simp add: noteId_def readProp_def sample_defs)
  note t = unique_ids_preserved_on_current_list [OF h0, of sampleEnv "[noteA, noteB, noteC]" imageApp "js ''a''"]
  have a: "uniqueIds (notes (after (fetchNotes sampleEnv sampleApp)))"
    using t [THEN conjunct1] h1 by (rule mp)
  have b: "uniqueIds (notes (after (createNoteOn sampleEnv imageApp sampleApp)))"
    using t [THEN conjunct2, THEN conjunct1] conjI [OF h2 h3] by (rule mp)
  have c: "uniqueIds (notes (after (deleteNote sampleEnv (js ''a'') sampleApp)))"
    using t [THEN conjunct2, THEN conjunct2, THEN conjunct1] .
  have l: "length (notes (after (createNoteOn sampleEnv imageApp sampleApp))) = 3"
    by (simp add: create_on sampleApp_def)
  show ?thesis by (intro conjI h0 h2 a b c l)
qed

text \<open>
  A fresh id alone is not enough. The store lists records with distinct ids and gives
  the created record an id that neither the store nor the list had. A \<open>fetchNotes\<close>
  that settles after the create call and before the prepend installs the created
  record, and the prepend then adds it a second time.
\<close>

theorem interleaved_fetch_duplicates_created_id:
  "uniqueIds (notes imageApp) \<and>
   list_resp laterEnv = Inr (Some [noteA, noteB, noteC, createdNote], None) \<and>
   uniqueIds [noteA, noteB, noteC, createdNote] \<and>
   create_resp sampleEnv createdPayload = Inr (Some createdNote, None) \<and>
   noteId createdNote \<notin> noteId ` set [noteA, noteB, noteC] \<and>
   noteId createdNote \<notin> noteId ` set (notes imageApp) \<and>
   CreateCall createdPayload \<in> set (events (createNoteOn sampleEnv imageApp (after (fetchNotes laterEnv imageApp)))) \<and>
   uniqueIds (notes (after (fetchNotes laterEnv imageApp))) \<and>
   \<not> uniqueIds (notes (after (createNoteOn sampleEnv imageApp (after (fetchNotes laterEnv imageApp)))))"
proof -
  have a: "uniqueIds (notes imageApp)"
    by (simp add: uniqueIds_def noteId_def readProp_def sample_defs)
  have b: "list_resp laterEnv = Inr (Some [noteA, noteB, noteC, createdNote], None)"
    by (simp add: laterEnv_def)
  have c: "uniqueIds [noteA, noteB, noteC, createdNote]"
    by (simp add: uniqueIds_def noteId_def readProp_def createdNote_def sample_defs)
  have d: "create_resp sampleEnv createdPayload = Inr (Some createdNote, None)"
    by (simp add: sampleEnv_def createdNote_def createdPayload_def)
  have e: "noteId createdNote \<notin> noteId ` set [noteA, noteB, noteC]"
    by (simp add: noteId_def readProp_def createdNote_def sample_defs)
  have f: "noteId createdNote \<notin> noteId ` set (notes imageApp)"
    by (simp add: noteId_def readProp_def createdNote_def sample_defs)
  have k: "CreateCall createdPayload \<in>
             set (events (createNoteOn sampleEnv imageApp (after (fetchNotes laterEnv imageApp))))"
    by (simp add: createNoteOn_def trim_def isWhiteSpace_def Let_def buildCreateInput_def truthy_def
          logErrors_def imagePathOf_def numToString_def digits_small digits_step digitChar_def
          getImageKey_def readStringProp_def readProp_def setProp_def createdPayload_def sample_defs)
  have g: "uniqueIds (notes (after (fetchNotes laterEnv imageApp)))"
    unfolding fetch_later
    by (simp add: uniqueIds_def noteId_def readProp_setProp)
       (simp add: readProp_def createdNote_def sample_defs)
  have h: "\<not> uniqueIds (notes (after (createNoteOn sampleEnv imageApp (after (fetchNotes laterEnv imageApp)))))"
    unfolding create_on fetch_later
    by (simp add: uniqueIds_def noteId_def readProp_setProp)
  show ?thesis by (intro conjI a b c d e f k g h)
qed

section \<open>The image key in payloads and records\<close>

text \<open>
  C10. \<open>buildCreateInput\<close> with a non-empty image key writes the key to both
  \<open>imageKey\<close> and \<open>image\<close>, and \<open>getImageKey\<close> reads it back; without a key the
  payload has neither property. \<open>getImageKey\<close> gives \<open>imageKey\<close> when it is a
  string, else \<open>image\<close> when it is a string, else nothing. The payload of a create
  call of \<open>createNote\<close> has the upload's path in both properties when the form has
  an image file and neither property when it has none; and with a non-blank title
  and no failed upload \<open>createNote\<close> sends such a create call.
\<close>

theorem image_key_written_to_both_fields:
  "(k \<noteq> [] \<longrightarrow>
      readProp (buildCreateInput b (Some k)) ''imageKey'' = JStr k \<and>
      readProp (buildCreateInput b (Some k)) ''image'' = JStr k \<and>
      getImageKey (buildCreateInput b (Some k)) = Some k) \<and>
   map_of (buildCreateInput b None) ''imageKey'' = None \<and>
   map_of (buildCreateInput b None) ''image'' = None \<and>
   getImageKey n =
     (case readProp n ''imageKey'' of
        JStr v \<Rightarrow> Some v
      | _ \<Rightarrow> (case readProp n ''image'' of JStr w \<Rightarrow> Some w | _ \<Rightarrow> None)) \<and>
   (\<forall>input. CreateCall input \<in> set (events (createNote env s)) \<longrightarrow>
      (case imageFile (form s) of
         Some f \<Rightarrow> readProp input ''imageKey'' = JStr (imagePathOf env f) \<and>
                   readProp input ''image'' = JStr (imagePathOf env f)
       | None \<Rightarrow> map_of input ''imageKey'' = None \<and> map_of input ''image'' = None)) \<and>
   (\<not> list_all isWhiteSpace (title (form s)) \<and>
    (case imageFile (form s) of None \<Rightarrow> True | Some f \<Rightarrow> \<not> isl (upload_resp env (imagePathOf env f) f)) \<longrightarrow>
      (\<exists>input. CreateCall input \<in> set (events (createNote env s)) \<and>
         (case imageFile (form s) of
            Some f \<Rightarrow> readProp input ''imageKey'' = JStr (imagePathOf env f) \<and>
                      readProp input ''image'' = JStr (imagePathOf env f)
          | None \<Rightarrow> map_of input ''imageKey'' = None \<and> map_of input ''image'' = None)))"
proof -
  have a: "readProp (buildCreateInput b (Some k)) ''imageKey'' = JStr k \<and>
      readProp (buildCreateInput b (Some k)) ''image'' = JStr k \<and>
      getImageKey (buildCreateInput b (Some k)) = Some k" if "k \<noteq> []" for k b
    using that
    by (simp add: buildCreateInput_def truthy_Some readProp_setProp getImageKey_def readStringProp_def)
  have b: "map_of (buildCreateInput b None) ''imageKey'' = None \<and>
       map_of (buildCreateInput b None) ''image'' = None" for b
    by (simp add: buildCreateInput_def truthy_None)
  have c: "getImageKey n =
     (case readProp n ''imageKey'' of
        JStr v \<Rightarrow> Some v
      | _ \<Rightarrow> (case readProp n ''image'' of JStr w \<Rightarrow> Some w | _ \<Rightarrow> None))"
    by (simp add: getImageKey_def readStringProp_def split: jsval.splits)
  have d: "case imageFile (form s) of
         Some f \<Rightarrow> readProp input ''imageKey'' = JStr (imagePathOf env f) \<and>
                   readProp input ''image'' = JStr (imagePathOf env f)
       | None \<Rightarrow> map_of input ''imageKey'' = None \<and> map_of input ''image'' = None"
    if "CreateCall input \<in> set (events (createNote env s))" for input
    unfolding createNote_create_calls [OF that]
    using a [OF imagePathOf_nonempty] b by (simp split: option.splits)
  have a1: "k \<noteq> [] \<longrightarrow>
      readProp (buildCreateInput b (Some k)) ''imageKey'' = JStr k \<and>
      readProp (buildCreateInput b (Some k)) ''image'' = JStr k \<and>
      getImageKey (buildCreateInput b (Some k)) = Some k"
    using a by blast
  have d1: "\<forall>input. CreateCall input \<in> set (events (createNote env s)) \<longrightarrow>
      (case imageFile (form s) of
         Some f \<Rightarrow> readProp input ''imageKey'' = JStr (imagePathOf env f) \<and>
                   readProp input ''image'' = JStr (imagePathOf env f)
       | None \<Rightarrow> map_of input ''imageKey'' = None \<and> map_of input ''image'' = None)"
    using d by blast
  have e1: "\<not> list_all isWhiteSpace (title (form s)) \<and>
    (case imageFile (form s) of None \<Rightarrow> True | Some f \<Rightarrow> \<not> isl (upload_resp env (imagePathOf env f) f)) \<longrightarrow>
      (\<exists>input. CreateCall input \<in> set (events (createNote env s)) \<and>
         (case imageFile (form s) of
            Some f \<Rightarrow> readProp input ''imageKey'' = JStr (imagePathOf env f) \<and>
                      readProp input ''image'' = JStr (imagePathOf env f)
          | None \<Rightarrow> map_of input ''imageKey'' = None \<and> map_of input ''image'' = None))"
  proof
    assume h: "\<not> list_all isWhiteSpace (title (form s)) \<and>
      (case imageFile (form s) of None \<Rightarrow> True | Some f \<Rightarrow> \<not> isl (upload_resp env (imagePathOf env f) f))"
    then obtain input where i: "CreateCall input \<in> set (events (createNote env s))"
      using createNote_sends_create [of s env] by blast
    show "\<exists>input. CreateCall input \<in> set (events (createNote env s)) \<and>
         (case imageFile (form s) of
            Some f \<Rightarrow> readProp input ''imageKey'' = JStr (imagePathOf env f) \<and>
                      readProp input ''image'' = JStr (imagePathOf env f)
          | None \<Rightarrow> map_of input ''imageKey'' = None \<and> map_of input ''image'' = None)"
      using i d [OF i] by (rule_tac x = input in exI) simp
  qed
  show ?thesis by (intro conjI a1 b [THEN conjunct1] b [THEN conjunct2] c d1 e1)
qed

theorem image_key_written_to_both_fields_witness:
  "CreateCall createdPayload \<in> set (events (createNote sampleEnv imageApp)) \<and>
   readProp createdPayload ''imageKey'' = JStr (js ''public/notes/1730_cat.png'') \<and>
   readProp createdPayload ''image'' = JStr (js ''public/notes/1730_cat.png'') \<and>
   list_ex isCreateCall (events (createNote sampleEnv imageApp)) \<and>
   CreateCall [(''title'', JStr (js ''My Title'')), (''content'', JStr (js ''body''))]
     \<in> set (events (createNote sampleEnv sampleApp)) \<and>
   map_of [(''title'', JStr (js ''My Title'')), (''content'', JStr (js ''body''))] ''imageKey'' = None \<and>
   map_of [(''title'', JStr (js ''My Title'')), (''content'', JStr (js ''body''))] ''image'' = None \<and>
   readProp (buildCreateInput \<lparr>btitle = js ''Cat'', bcontent = None\<rparr> (Some (js ''k''))) ''imageKey'' = JStr (js ''k'') \<and>
   readProp (buildCreateInput \<lparr>btitle = js ''Cat'', bcontent = None\<rparr> (Some (js ''k''))) ''image'' = JStr (js ''k'') \<and>
   getImageKey (buildCreateInput \<lparr>btitle = js ''Cat'', bcontent = None\<rparr> (Some (js ''k''))) = Some (js ''k'') \<and>
   getImageKey noteA = Some (js ''k1'') \<and>
   getImageKey noteB = Some (js ''k2'') \<and>
   getImageKey noteC = None \<and>
   getImageKey [(''imageKey'', JNum 7), (''image'', JStr (js ''k3''))] = Some (js ''k3'')"
proof -
  have h: "js ''k'' \<noteq> []" by (simp add: js_def)
  note thm1 = image_key_written_to_both_fields [of "js ''k''" "\<lparr>btitle = js ''Cat'', bcontent = None\<rparr>" noteA sampleEnv imageApp]
  note thm2 = image_key_written_to_both_fields [of "js ''k''" "\<lparr>btitle = js ''Cat'', bcontent = None\<rparr>" noteA sampleEnv sampleApp]
  note a = thm1 [THEN conjunct1, rule_format, OF h]
  have p: "imagePathOf sampleEnv sampleFile = js ''public/notes/1730_cat.png''"
    by (simp add: imagePathOf_def numToString_def digits_small digits_step digitChar_def sample_defs)
  have f1: "imageFile (form imageApp) = Some sampleFile" by (simp add: imageApp_def)
  have f2: "imageFile (form sampleApp) = None" by (simp add: sampleApp_def)
  have m1: "CreateCall createdPayload \<in> set (events (createNote sampleEnv imageApp))"
    by (simp add: eval_defs createdPayload_def sample_defs)
  have m2: "CreateCall [(''title'', JStr (js ''My Title'')), (''content'', JStr (js ''body''))]
     \<in> set (events (createNote sampleEnv sampleApp))"
    by (simp add: eval_defs sample_defs)
  have r1: "readProp createdPayload ''imageKey'' = JStr (js ''public/notes/1730_cat.png'') \<and>
            readProp createdPayload ''image'' = JStr (js ''public/notes/1730_cat.png'')"
    using thm1 [THEN conjunct2, THEN conjunct2, THEN conjunct2, THEN conjunct2, THEN conjunct1,
                rule_format, OF m1]
    by (simp add: f1 p)
  have r2: "map_of [(''title'', JStr (js ''My Title'')), (''content'', JStr (js ''body''))] ''imageKey'' = None \<and>
            map_of [(''title'', JStr (js ''My Title'')), (''content'', JStr (js ''body''))] ''image'' = None"
    using thm2 [THEN conjunct2, THEN conjunct2, THEN conjunct2, THEN conjunct2, THEN conjunct1,
                rule_format, OF m2]
    by (simp add: f2)
  have t: "\<not> list_all isWhiteSpace (title (form imageApp))"
    by (simp add: imageApp_def js_def isWhiteSpace_def)
  have u: "case imageFile (form imageApp) of None \<Rightarrow> True
           | Some f \<Rightarrow> \<not> isl (upload_resp sampleEnv (imagePathOf sampleEnv f) f)"
    by (simp add: f1 sampleEnv_def)
  have "\<exists>input. CreateCall input \<in> set (events (createNote sampleEnv imageApp)) \<and>
         (case imageFile (form imageApp) of
            Some f \<Rightarrow> readProp input ''imageKey'' = JStr (imagePathOf sampleEnv f) \<and>
                      readProp input ''image'' = JStr (imagePathOf sampleEnv f)
          | None \<Rightarrow> map_of input ''imageKey'' = None \<and> map_of input ''image'' = None)"
    using thm1 [THEN conjunct2, THEN conjunct2, THEN conjunct2, THEN conjunct2, THEN conjunct2]
          conjI [OF t u] by (rule mp)
  then obtain input where "CreateCall input \<in> set (events (createNote sampleEnv imageApp))"
    by blast
  then have x: "list_ex isCreateCall (events (createNote sampleEnv imageApp))"
    unfolding list_ex_iff by (rule_tac x = "CreateCall input" in bexI) simp_all
  have g: "getImageKey noteA = Some (js ''k1'')" "getImageKey noteB = Some (js ''k2'')"
      "getImageKey noteC = None"
      "getImageKey [(''imageKey'', JNum 7), (''image'', JStr (js ''k3''))] = Some (js ''k3'')"
    by (simp_all add: getImageKey_def readStringProp_def readProp_def noteA_def noteB_def noteC_def)
  show ?thesis
    by (intro conjI m1 r1 [THEN conjunct1] r1 [THEN conjunct2] x m2 r2 [THEN conjunct1] r2 [THEN conjunct2]
          a [THEN conjunct1] a [THEN conjunct2, THEN conjunct1] a [THEN conjunct2, THEN conjunct2] g)
qed

end
